theory Spec2Isabelle
  imports Main "HOL-Library.Sublist"
begin

section \<open>Python text primitives\<close>

text \<open>
  A Python \<open>str\<close> is modelled as a \<open>string\<close>; one \<open>char\<close> stands for one code point, so
  \<open>length\<close> is Python's \<open>len\<close>. Integers are Python's unbounded \<open>int\<close>.

  \<open>is_space\<close> is \<open>str.isspace\<close> on the code points a \<open>char\<close> can hold: it decides what
  \<open>str.strip()\<close> removes and where \<open>str.split()\<close> cuts.
\<close>

definition is_space :: "char \<Rightarrow> bool" where
  "is_space c \<longleftrightarrow>
     c \<in> set [CHR 0x09, CHR 0x0A, CHR 0x0B, CHR 0x0C, CHR 0x0D, CHR 0x1C, CHR 0x1D,
              CHR 0x1E, CHR 0x1F, CHR 0x20, CHR 0x85, CHR 0xA0]"

text \<open>\<open>s.strip()\<close>: leading and trailing whitespace removed.\<close>

definition strip :: "string \<Rightarrow> string" where
  "strip s = rev (dropWhile is_space (rev (dropWhile is_space s)))"

text \<open>\<open>s.split('\n')\<close>: cut at every newline; the result always has at least one field.\<close>

fun split_nl :: "string \<Rightarrow> string list" where
  "split_nl [] = [[]]"
| "split_nl (c # cs) =
     (if c = CHR 0x0A then [] # split_nl cs
      else (case split_nl cs of [] \<Rightarrow> [[c]] | l # ls \<Rightarrow> (c # l) # ls))"

text \<open>
  \<open>s.split()\<close>: the maximal runs of non-whitespace characters, in order. The first
  argument is the word being read.
\<close>

fun split_words :: "string \<Rightarrow> string \<Rightarrow> string list" where
  "split_words cur [] = (if cur = [] then [] else [cur])"
| "split_words cur (c # cs) =
     (if is_space c then (if cur = [] then split_words [] cs else cur # split_words [] cs)
      else split_words (cur @ [c]) cs)"

definition split_ws :: "string \<Rightarrow> string list" where
  "split_ws s = split_words [] s"

text \<open>\<open>sep.join(xs)\<close>.\<close>

fun join :: "string \<Rightarrow> string list \<Rightarrow> string" where
  "join sep [] = []"
| "join sep [x] = x"
| "join sep (x # y # ys) = x @ sep @ join sep (y # ys)"

text \<open>
  \<open>xs[i:j]\<close> for integer bounds: a negative bound counts from the end, and both bounds
  are clamped to the list.
\<close>

definition slice_index :: "nat \<Rightarrow> int \<Rightarrow> nat" where
  "slice_index n i = (if i < 0 then nat (int n + i) else min n (nat i))"

definition py_slice :: "'a list \<Rightarrow> int \<Rightarrow> int \<Rightarrow> 'a list" where
  "py_slice xs i j =
     (let a = slice_index (length xs) i; b = slice_index (length xs) j
      in take (b - a) (drop a xs))"

section \<open>ai_studio_code.py: the token estimator and the splitter\<close>

datatype error = EstimationFailure

text \<open>
  \<open>estimate_tokens\<close>: the tokenizer is the external collaborator \<open>encode\<close> (the token
  list of a text, or an exception); the bare \<open>except\<close> replaces any failure by
  \<open>len(text) // 3\<close>.
\<close>

definition estimate_tokens :: "(string \<Rightarrow> error + nat list) \<Rightarrow> string \<Rightarrow> int" where
  "estimate_tokens encode text =
     (case encode text of
        Inr tokens \<Rightarrow> int (length tokens)
      | Inl e \<Rightarrow> int (length text) div 3)"

text \<open>
  The loops of \<open>split_text_by_tokens\<close> run over the lists \<open>lines\<close> and \<open>words\<close>; their
  bodies are the step functions below, on the variables the body assigns:
  \<open>(chunks, word_chunk, word_tokens)\<close> for the inner loop and
  \<open>(chunks, current_chunk, current_tokens)\<close> for the outer one.
\<close>

definition word_step ::
  "(string \<Rightarrow> int) \<Rightarrow> int \<Rightarrow> string \<Rightarrow> string list \<times> string list \<times> int
     \<Rightarrow> string list \<times> string list \<times> int" where
  "word_step est max_tokens word st =
     (case st of (chunks, word_chunk, word_tokens) \<Rightarrow>
        let word_token_count = est (word @ '' '') in
        if word_tokens + word_token_count > max_tokens \<and> word_chunk \<noteq> []
        then (chunks @ [join '' '' word_chunk], [word], word_token_count)
        else (chunks, word_chunk @ [word], word_tokens + word_token_count))"

definition line_step ::
  "(string \<Rightarrow> int) \<Rightarrow> int \<Rightarrow> string \<Rightarrow> string list \<times> string list \<times> int
     \<Rightarrow> string list \<times> string list \<times> int" where
  "line_step est max_tokens line st =
     (case st of (chunks, current_chunk, current_tokens) \<Rightarrow>
        let line_tokens = est (line @ [CHR 0x0A]) in
        if line_tokens > max_tokens then
          (case fold (word_step est max_tokens) (split_ws line) (chunks, [], 0) of
             (chunks', word_chunk, word_tokens) \<Rightarrow>
               if word_chunk \<noteq> [] then
                 (if current_chunk \<noteq> []
                  then (chunks' @ [join [CHR 0x0A] current_chunk] @ [join '' '' word_chunk], [], 0)
                  else (chunks' @ [join '' '' word_chunk], current_chunk, current_tokens))
               else (chunks', current_chunk, current_tokens))
        else if current_tokens + line_tokens > max_tokens \<and> current_chunk \<noteq> []
        then (chunks @ [join [CHR 0x0A] current_chunk], [line], line_tokens)
        else (chunks, current_chunk @ [line], current_tokens + line_tokens))"

definition split_text_by_tokens ::
  "(string \<Rightarrow> error + nat list) \<Rightarrow> string \<Rightarrow> int \<Rightarrow> string list" where
  "split_text_by_tokens encode text max_tokens =
     (let total_tokens = estimate_tokens encode text in
      if total_tokens \<le> max_tokens then [text]
      else
        (case fold (line_step (estimate_tokens encode) max_tokens) (split_nl text) ([], [], 0) of
           (chunks, current_chunk, current_tokens) \<Rightarrow>
             if current_chunk \<noteq> [] then chunks @ [join [CHR 0x0A] current_chunk] else chunks))"

section \<open>extract\_novel\_metadata.py: the trimmer and the representative sampler\<close>

text \<open>
  \<open>_count_tokens\<close> asks the remote model for the token count of a text and has no
  handler: the collaborator is the parameter \<open>count_tokens\<close>, whose \<open>Inl\<close> is the
  exception the call raises.
\<close>

function trim_loop ::
  "(string \<Rightarrow> error + int) \<Rightarrow> string \<Rightarrow> int \<Rightarrow> int \<Rightarrow> int \<Rightarrow> string \<Rightarrow> error + string" where
  "trim_loop count_tokens text max_tokens lo hi best =
     (if lo \<le> hi then
        (let mid = (lo + hi) div 2; candidate = py_slice text 0 mid in
         case count_tokens candidate of
           Inl e \<Rightarrow> Inl e
         | Inr tok \<Rightarrow>
             if tok \<le> max_tokens
             then trim_loop count_tokens text max_tokens (mid + 1) hi candidate
             else trim_loop count_tokens text max_tokens lo (mid - 1) best)
      else Inr best)"
  by pat_completeness auto
termination
  by (relation "measure (\<lambda>(count_tokens, text, max_tokens, lo, hi, best). nat (hi + 1 - lo))")
    auto

definition trim_to_token_limit ::
  "(string \<Rightarrow> error + int) \<Rightarrow> string \<Rightarrow> int \<Rightarrow> error + string" where
  "trim_to_token_limit count_tokens text max_tokens =
     (if strip text = [] then Inr []
      else
        (case count_tokens text of
           Inl e \<Rightarrow> Inl e
         | Inr tok \<Rightarrow>
             if tok \<le> max_tokens then Inr text
             else trim_loop count_tokens text max_tokens 1 (int (length text)) []))"

text \<open>
  The sampler's module constants. The three segment titles of the source are literals in
  Arabic script; they enter the model as the parameter \<open>titles\<close>, so every statement
  below holds for whatever the three titles are.
\<close>

definition SEGMENT_MAX_TOKENS :: int where
  "SEGMENT_MAX_TOKENS = 8000"

definition TARGET_TOTAL_SAMPLE_TOKENS :: int where
  "TARGET_TOTAL_SAMPLE_TOKENS = 22000"

definition TOKEN_TO_CHAR_RATIO :: int where
  "TOKEN_TO_CHAR_RATIO = 4"

text \<open>The values of the metadata dictionary; the dictionary keeps its keys in order.\<close>

datatype pyval = PyInt int | PyStrList "string list"

type_synonym sample_meta = "(string \<times> pyval) list"

definition bind :: "error + 'a \<Rightarrow> ('a \<Rightarrow> error + 'b) \<Rightarrow> error + 'b" where
  "bind m f = (case m of Inl e \<Rightarrow> Inl e | Inr x \<Rightarrow> f x)"

text \<open>
  The two comprehensions over \<open>segments\<close>, which the source writes out once before and
  once after the correction: the combined sample and the titles of the segments kept.
\<close>

definition combine_segments :: "(string \<times> string) list \<Rightarrow> string" where
  "combine_segments segments =
     join [CHR 0x0A, CHR 0x0A]
       (map (\<lambda>(title, txt). strip (title @ [CHR 0x0A] @ txt))
          (filter (\<lambda>(title, txt). strip txt \<noteq> []) segments))"

definition included_titles :: "(string \<times> string) list \<Rightarrow> string list" where
  "included_titles segments = map fst (filter (\<lambda>(title, txt). strip txt \<noteq> []) segments)"

text \<open>
  \<open>_build_representative_sample\<close>. \<open>self.text\<close> is the loaded text, a \<open>str\<close>, so
  \<open>self.text or ""\<close> is that text. The new limit is written in the source as
  \<open>max(2000, int(SEGMENT_MAX_TOKENS * (TARGET_TOTAL_SAMPLE_TOKENS / max(total_tok, 1))))\<close>
  and is computed only when \<open>total_tok > 22000\<close>. There the truncated double-precision
  product equals the integer quotient \<open>176000000 div total_tok\<close> for every total up
  to 88000, and from there on both are at most 2000, so that the maximum with 2000 is the
  same. \<open>full[k:]\<close> is the slice up to \<open>len(full)\<close>.
\<close>

definition build_representative_sample ::
  "(string \<Rightarrow> error + int) \<Rightarrow> string \<times> string \<times> string \<Rightarrow> string
     \<Rightarrow> error + (string \<times> sample_meta)" where
  "build_representative_sample count_tokens titles text =
     (case titles of (title_begin, title_middle, title_end) \<Rightarrow>
      let full = strip text in
      if full = [] then Inr ([], [(''segments'', PyStrList []), (''total_tokens'', PyInt 0)])
      else
        let seg_chars = SEGMENT_MAX_TOKENS * TOKEN_TO_CHAR_RATIO;
            n = int (length full);
            begins = py_slice full 0 (min n (seg_chars * 2));
            middle_start = max 0 (n div 2 - seg_chars);
            middle_end = min n (n div 2 + seg_chars);
            middle = py_slice full middle_start middle_end;
            ends = py_slice full (max 0 (n - seg_chars * 2)) n
        in
        bind (trim_to_token_limit count_tokens begins SEGMENT_MAX_TOKENS) (\<lambda>begin_txt.
        bind (trim_to_token_limit count_tokens middle SEGMENT_MAX_TOKENS) (\<lambda>mid_txt.
        bind (trim_to_token_limit count_tokens ends SEGMENT_MAX_TOKENS) (\<lambda>end_txt.
          let segments = [(title_begin, begin_txt), (title_middle, mid_txt), (title_end, end_txt)];
              combined = combine_segments segments
          in
          bind (count_tokens combined) (\<lambda>total_tok.
            if total_tok > TARGET_TOTAL_SAMPLE_TOKENS then
              let new_limit =
                    max 2000 ((SEGMENT_MAX_TOKENS * TARGET_TOTAL_SAMPLE_TOKENS) div max total_tok 1)
              in
              bind (trim_to_token_limit count_tokens begins new_limit) (\<lambda>begin_txt.
              bind (trim_to_token_limit count_tokens middle new_limit) (\<lambda>mid_txt.
              bind (trim_to_token_limit count_tokens ends new_limit) (\<lambda>end_txt.
                let segments =
                      [(title_begin, begin_txt), (title_middle, mid_txt), (title_end, end_txt)];
                    combined = combine_segments segments
                in
                bind (count_tokens combined) (\<lambda>total_tok.
                  Inr (combined,
                    [(''segment_max_tokens'', PyInt SEGMENT_MAX_TOKENS),
                     (''target_total_sample_tokens'', PyInt TARGET_TOTAL_SAMPLE_TOKENS),
                     (''actual_total_sample_tokens'', PyInt total_tok),
                     (''segments_included'', PyStrList (included_titles segments))])))))
            else
              Inr (combined,
                [(''segment_max_tokens'', PyInt SEGMENT_MAX_TOKENS),
                 (''target_total_sample_tokens'', PyInt TARGET_TOTAL_SAMPLE_TOKENS),
                 (''actual_total_sample_tokens'', PyInt total_tok),
                 (''segments_included'', PyStrList (included_titles segments))]))))))"

section \<open>ingest\_novel.py: overlapping character chunks\<close>

text \<open>
  \<open>chunk_text\<close>: the \<open>while\<close> loop on \<open>start\<close> and \<open>chunks\<close>. Nothing in the source makes
  \<open>start\<close> grow, so the loop is a partial function: \<open>None\<close> is a run that never returns.
\<close>

partial_function (option) chunk_text_loop ::
  "string \<Rightarrow> int \<Rightarrow> int \<Rightarrow> int \<Rightarrow> string list \<Rightarrow> string list option" where
  "chunk_text_loop text chunk_size overlap start chunks =
     (if start < int (length text) then
        (let end' = min (start + chunk_size) (int (length text));
             chunks' = chunks @ [py_slice text start end']
         in if end' = int (length text) then Some chunks'
            else chunk_text_loop text chunk_size overlap (start + (chunk_size - overlap)) chunks')
      else Some chunks)"

definition chunk_text :: "string \<Rightarrow> int \<Rightarrow> int \<Rightarrow> string list option" where
  "chunk_text text chunk_size overlap = chunk_text_loop text chunk_size overlap 0 []"

section \<open>Vocabulary of the properties\<close>

text \<open>
  Collaborators for concrete runs: a tokenizer that always raises (so that
  \<open>estimate_tokens\<close> is \<open>len(text) // 3\<close>), a tokenizer with one token per character,
  a counter that always raises, a counter that returns the number of characters, and one
  that returns a thousand tokens per character.
\<close>

definition failing_encoder :: "string \<Rightarrow> error + nat list" where
  "failing_encoder s = Inl EstimationFailure"

definition char_encoder :: "string \<Rightarrow> error + nat list" where
  "char_encoder s = Inr (map of_char s)"

definition failing_estimator :: "string \<Rightarrow> error + int" where
  "failing_estimator s = Inl EstimationFailure"

definition length_estimator :: "string \<Rightarrow> error + int" where
  "length_estimator s = Inr (int (length s))"

definition thousand_per_char :: "string \<Rightarrow> error + int" where
  "thousand_per_char s = Inr (1000 * int (length s))"

text \<open>A text fits a limit when the counter returns a count and the count is within it.\<close>

definition fits :: "(string \<Rightarrow> error + int) \<Rightarrow> int \<Rightarrow> string \<Rightarrow> bool" where
  "fits count_tokens max_tokens s =
     (case count_tokens s of Inr tok \<Rightarrow> tok \<le> max_tokens | Inl e \<Rightarrow> False)"

text \<open>The counter is non-decreasing in prefix length on the prefixes of a text.\<close>

definition prefix_monotone :: "(string \<Rightarrow> error + int) \<Rightarrow> string \<Rightarrow> bool" where
  "prefix_monotone count_tokens s \<longleftrightarrow>
     (\<forall>q \<in> set (prefixes s). \<forall>p \<in> set (prefixes q).
        case (count_tokens p, count_tokens q) of (Inr a, Inr b) \<Rightarrow> a \<le> b | _ \<Rightarrow> True)"

text \<open>
  The invariant of the binary search: \<open>best\<close> has \<open>lo - 1\<close> characters and the prefix of
  \<open>hi + 1\<close> characters was counted over the limit.
\<close>

definition search_inv ::
  "(string \<Rightarrow> error + int) \<Rightarrow> string \<Rightarrow> int \<Rightarrow> int \<Rightarrow> int \<Rightarrow> string \<Rightarrow> bool" where
  "search_inv count_tokens s max_tokens lo hi best \<longleftrightarrow>
     1 \<le> lo \<and> lo \<le> hi + 1 \<and> hi \<le> int (length s) \<and> int (length best) = lo - 1 \<and>
     (\<exists>tok. count_tokens (take (nat (hi + 1)) s) = Inr tok \<and> max_tokens < tok)"

text \<open>No chunk emitted so far and no piece of the pending buffer is empty.\<close>

definition no_empty :: "string list \<times> string list \<times> int \<Rightarrow> bool" where
  "no_empty st \<longleftrightarrow>
     (case st of (chunks, pending, tokens) \<Rightarrow> [] \<notin> set chunks \<and> [] \<notin> set pending)"

text \<open>
  The sampler in the words of its description. \<open>candidate_windows\<close> are the raw begin,
  middle and end windows of the stripped text; \<open>sample_pass\<close> trims the three windows to
  one limit, combines the kept segments and measures the combination;
  \<open>sample_result\<close> is the pair returned for a pass; \<open>single_correction_sample\<close> runs one
  pass at the configured limit and, if its total is over the budget, exactly one more at
  the reduced limit, whose result it returns whatever its total.
\<close>

definition candidate_windows :: "string \<Rightarrow> string \<times> string \<times> string" where
  "candidate_windows full =
     (let seg_chars = SEGMENT_MAX_TOKENS * TOKEN_TO_CHAR_RATIO;
          n = int (length full);
          begins = py_slice full 0 (min n (seg_chars * 2));
          middle_start = max 0 (n div 2 - seg_chars);
          middle_end = min n (n div 2 + seg_chars);
          middle = py_slice full middle_start middle_end;
          ends = py_slice full (max 0 (n - seg_chars * 2)) n
      in (begins, middle, ends))"

definition sample_pass ::
  "(string \<Rightarrow> error + int) \<Rightarrow> string \<times> string \<times> string \<Rightarrow> string \<Rightarrow> int
     \<Rightarrow> error + ((string \<times> string) list \<times> int)" where
  "sample_pass count_tokens titles full limit =
     (case titles of (title_begin, title_middle, title_end) \<Rightarrow>
      case candidate_windows full of (begins, middle, ends) \<Rightarrow>
        bind (trim_to_token_limit count_tokens begins limit) (\<lambda>begin_txt.
        bind (trim_to_token_limit count_tokens middle limit) (\<lambda>mid_txt.
        bind (trim_to_token_limit count_tokens ends limit) (\<lambda>end_txt.
          let segments = [(title_begin, begin_txt), (title_middle, mid_txt), (title_end, end_txt)]
          in bind (count_tokens (combine_segments segments)) (\<lambda>total_tok.
               Inr (segments, total_tok))))))"

definition sample_result :: "(string \<times> string) list \<Rightarrow> int \<Rightarrow> string \<times> sample_meta" where
  "sample_result segments total_tok =
     (combine_segments segments,
      [(''segment_max_tokens'', PyInt SEGMENT_MAX_TOKENS),
       (''target_total_sample_tokens'', PyInt TARGET_TOTAL_SAMPLE_TOKENS),
       (''actual_total_sample_tokens'', PyInt total_tok),
       (''segments_included'', PyStrList (included_titles segments))])"

definition single_correction_sample ::
  "(string \<Rightarrow> error + int) \<Rightarrow> string \<times> string \<times> string \<Rightarrow> string
     \<Rightarrow> error + (string \<times> sample_meta)" where
  "single_correction_sample count_tokens titles full =
     bind (sample_pass count_tokens titles full SEGMENT_MAX_TOKENS) (\<lambda>(segments, total_tok).
       if total_tok > TARGET_TOTAL_SAMPLE_TOKENS then
         bind (sample_pass count_tokens titles full
                 (max 2000 ((SEGMENT_MAX_TOKENS * TARGET_TOTAL_SAMPLE_TOKENS) div total_tok)))
           (\<lambda>(segments', total_tok'). Inr (sample_result segments' total_tok'))
       else Inr (sample_result segments total_tok))"

declare trim_loop.simps [simp del]

section \<open>The splitter\<close>

lemma split_words_nonempty: "[] \<notin> set (split_words cur s)"
  by (induction s arbitrary: cur) auto

lemma split_ws_nonempty: "[] \<notin> set (split_ws s)"
  by (simp add: split_ws_def split_words_nonempty)

lemma join_nonempty: "xs \<noteq> [] \<Longrightarrow> [] \<notin> set xs \<Longrightarrow> join sep xs \<noteq> []"
  by (induction sep xs rule: join.induct) auto

lemma join_nonempty': "xs \<noteq> [] \<Longrightarrow> [] \<notin> set xs \<Longrightarrow> [] \<noteq> join sep xs"
  using join_nonempty [of xs sep] by auto

lemma word_step_no_empty:
  "word \<noteq> [] \<Longrightarrow> no_empty st \<Longrightarrow> no_empty (word_step est M word st)"
  by (cases st) (auto simp: no_empty_def word_step_def Let_def join_nonempty')

lemma fold_word_step_no_empty:
  "[] \<notin> set ws \<Longrightarrow> no_empty st \<Longrightarrow> no_empty (fold (word_step est M) ws st)"
proof (induction ws arbitrary: st)
  case Nil
  then show ?case by simp
next
  case (Cons w ws)
  from Cons.prems have "w \<noteq> []" and "[] \<notin> set ws" by auto
  with Cons.prems(2) Cons.IH [of "word_step est M w st"] show ?case
    by (simp add: word_step_no_empty)
qed

lemma line_step_no_empty:
  assumes "line \<noteq> []" and "no_empty st"
  shows "no_empty (line_step est M line st)"
proof -
  obtain chunks cur tok where st: "st = (chunks, cur, tok)" by (cases st) auto
  obtain chunks' wc wt where
    f: "fold (word_step est M) (split_ws line) (chunks, [], 0) = (chunks', wc, wt)"
    by (cases "fold (word_step est M) (split_ws line) (chunks, [], 0)") auto
  from assms(2) st have "no_empty (chunks, [], 0)" by (simp add: no_empty_def)
  from fold_word_step_no_empty [OF split_ws_nonempty this, of est M line] f
  have "[] \<notin> set chunks'" "[] \<notin> set wc" by (simp_all add: no_empty_def)
  with assms st f show ?thesis
    by (auto simp: line_step_def Let_def no_empty_def join_nonempty')
qed

lemma fold_line_step_no_empty:
  "[] \<notin> set ls \<Longrightarrow> no_empty st \<Longrightarrow> no_empty (fold (line_step est M) ls st)"
proof (induction ls arbitrary: st)
  case Nil
  then show ?case by simp
next
  case (Cons l ls)
  from Cons.prems have "l \<noteq> []" and "[] \<notin> set ls" by auto
  with Cons.prems(2) Cons.IH [of "line_step est M l st"] show ?case
    by (simp add: line_step_no_empty)
qed

lemma split_no_empty_line:
  assumes "[] \<notin> set (split_nl T)"
  shows "[] \<notin> set (split_text_by_tokens encode T M)"
proof -
  from assms have T: "T \<noteq> []" by auto
  obtain chunks cur tok where f:
    "fold (line_step (estimate_tokens encode) M) (split_nl T) ([], [], 0) = (chunks, cur, tok)"
    by (cases "fold (line_step (estimate_tokens encode) M) (split_nl T) ([], [], 0)") auto
  have "no_empty ([], [], 0)" by (simp add: no_empty_def)
  from fold_line_step_no_empty [OF assms this, of "estimate_tokens encode" M] f
  have "[] \<notin> set chunks" "[] \<notin> set cur" by (simp_all add: no_empty_def)
  with T f show ?thesis
    by (auto simp: split_text_by_tokens_def Let_def join_nonempty')
qed

lemma split_fast_path:
  "estimate_tokens encode T \<le> M \<Longrightarrow> split_text_by_tokens encode T M = [T]"
  by (simp add: split_text_by_tokens_def)

text \<open>
  C1. Every chunk returned by \<open>split_text_by_tokens\<close> has an estimate of at most the
  limit, unless it is a single word that is over the limit on its own. The code adds up
  the estimates of the pieces and never estimates the chunk it emits: with the tokenizer
  unavailable (the estimate is \<open>len // 3\<close>), the three lines \<open>abcd\<close> and a limit of 2
  give the two-word chunk \<open>abcd\nabcd\<close>, whose estimate is 3.
\<close>

theorem split_chunk_over_limit:
  "split_text_by_tokens failing_encoder ''abcd\<newline>abcd\<newline>abcd'' 2 = [''abcd\<newline>abcd'', ''abcd'']
   \<and> estimate_tokens failing_encoder ''abcd\<newline>abcd'' = 3
   \<and> split_ws ''abcd\<newline>abcd'' = [''abcd'', ''abcd'']"
  by (simp add: split_text_by_tokens_def estimate_tokens_def failing_encoder_def line_step_def
      split_ws_def is_space_def)

text \<open>
  C5. The chunks of \<open>split_text_by_tokens\<close>, read in order, carry the words of the text in
  their original order; a pending line buffer is flushed before any word chunk of an
  oversized line. The code flushes the pending buffer only after the word loop, so every
  word chunk but the last of the oversized line is emitted before the lines that precede
  it: here the first line \<open>x\<close> comes out third, under the fallback estimate and under
  a tokenizer that works.
\<close>

theorem split_word_chunks_overtake_lines:
  "split_text_by_tokens failing_encoder ''x\<newline>aaaaa bbbbb ccccc'' 2
     = [''aaaaa'', ''bbbbb'', ''x'', ''ccccc'']
   \<and> split_text_by_tokens char_encoder ''x\<newline>aaaaa bbbbb ccccc'' 6
     = [''aaaaa'', ''bbbbb'', ''x'', ''ccccc'']
   \<and> split_ws ''x\<newline>aaaaa bbbbb ccccc'' = [''x'', ''aaaaa'', ''bbbbb'', ''ccccc'']"
  by (simp add: split_text_by_tokens_def estimate_tokens_def failing_encoder_def char_encoder_def
      line_step_def word_step_def split_ws_def is_space_def)

text \<open>
  C8, as stated: no chunk returned by \<open>split_text_by_tokens\<close> is the empty string. A text
  that ends in a newline after an oversized line yields an empty last chunk.
\<close>

theorem split_empty_chunk:
  "[] \<in> set (split_text_by_tokens failing_encoder ''aaaaaa\<newline>'' 1)"
  by (simp add: split_text_by_tokens_def estimate_tokens_def failing_encoder_def line_step_def
      word_step_def split_ws_def is_space_def)

text \<open>
  C8, amended: if the text has no empty line (it is not empty and has no leading,
  trailing or doubled newline), no chunk returned is the empty string; and when the text
  is over the limit and the line loop ends with a pending buffer of at least one line,
  the result ends with that buffer joined by newlines.
\<close>

theorem split_chunks_nonempty:
  "([] \<notin> set (split_nl T) \<longrightarrow> [] \<notin> set (split_text_by_tokens encode T M)) \<and>
   (\<not> estimate_tokens encode T \<le> M \<longrightarrow>
    fold (line_step (estimate_tokens encode) M) (split_nl T) ([], [], 0)
      = (chunks, pending, tokens) \<longrightarrow>
    pending \<noteq> [] \<longrightarrow>
    split_text_by_tokens encode T M = chunks @ [join [CHR 0x0A] pending])"
  by (simp add: split_no_empty_line) (simp add: split_text_by_tokens_def)

theorem split_chunks_nonempty_witness:
  "[] \<notin> set (split_nl ''abcd\<newline>abcd\<newline>abcd'')
   \<and> [] \<notin> set (split_text_by_tokens failing_encoder ''abcd\<newline>abcd\<newline>abcd'' 2)
   \<and> \<not> estimate_tokens failing_encoder ''abcd\<newline>abcd\<newline>abcd'' \<le> 2
   \<and> fold (line_step (estimate_tokens failing_encoder) 2) (split_nl ''abcd\<newline>abcd\<newline>abcd'')
         ([], [], 0) = ([''abcd\<newline>abcd''], [''abcd''], 1)
   \<and> [''abcd''] \<noteq> []
   \<and> split_text_by_tokens failing_encoder ''abcd\<newline>abcd\<newline>abcd'' 2
        = [''abcd\<newline>abcd''] @ [join [CHR 0x0A] [''abcd'']]"
proof -
  have lines: "[] \<notin> set (split_nl ''abcd\<newline>abcd\<newline>abcd'')" by simp
  have over: "\<not> estimate_tokens failing_encoder ''abcd\<newline>abcd\<newline>abcd'' \<le> 2"
    by (simp add: estimate_tokens_def failing_encoder_def)
  have loop: "fold (line_step (estimate_tokens failing_encoder) 2)
      (split_nl ''abcd\<newline>abcd\<newline>abcd'') ([], [], 0) = ([''abcd\<newline>abcd''], [''abcd''], 1)"
    by (simp add: estimate_tokens_def failing_encoder_def line_step_def)
  from split_chunks_nonempty
    [of "''abcd\<newline>abcd\<newline>abcd''" failing_encoder 2 "[''abcd\<newline>abcd'']" "[''abcd'']" 1]
    lines over loop
  show ?thesis by simp
qed

section \<open>The trimmer\<close>

lemma py_slice_0: "py_slice s 0 j = take (slice_index (length s) j) s"
  by (simp add: py_slice_def slice_index_def)

lemma py_slice_0_prefix: "prefix (py_slice s 0 j) s"
  by (simp add: py_slice_0 take_is_prefix)

lemma py_slice_0_in_range:
  "0 \<le> j \<Longrightarrow> j \<le> int (length s) \<Longrightarrow> py_slice s 0 j = take (nat j) s"
  by (simp add: py_slice_0 slice_index_def)

text \<open>
  Whatever the two branches of the search preserve holds of the result, together with
  bounds that have crossed.
\<close>

lemma trim_loop_invariant:
  assumes "trim_loop c t M lo hi best = Inr r" and "I lo hi best"
    and "\<forall>lo hi best tok. I lo hi best \<and> lo \<le> hi
           \<and> c (py_slice t 0 ((lo + hi) div 2)) = Inr tok \<and> tok \<le> M
           \<longrightarrow> I ((lo + hi) div 2 + 1) hi (py_slice t 0 ((lo + hi) div 2))"
    and "\<forall>lo hi best tok. I lo hi best \<and> lo \<le> hi
           \<and> c (py_slice t 0 ((lo + hi) div 2)) = Inr tok \<and> \<not> tok \<le> M
           \<longrightarrow> I lo ((lo + hi) div 2 - 1) best"
  shows "\<exists>lo' hi'. I lo' hi' r \<and> hi' < lo'"
  using assms
proof (induction c t M lo hi best rule: trim_loop.induct)
  case (1 c t M lo hi best)
  note run = "1.prems"(1) and inv = "1.prems"(2)
    and fit = "1.prems"(3) and over = "1.prems"(4)
  show ?case
  proof (cases "lo \<le> hi")
    case False
    with run have "r = best"
      by (simp add: trim_loop.simps [of c t M lo hi best])
    with False inv show ?thesis
      by (intro exI [of _ lo] exI [of _ hi]) simp
  next
    case True
    let ?mid = "(lo + hi) div 2"
    let ?cand = "py_slice t 0 ?mid"
    from run True obtain tok where tok: "c ?cand = Inr tok"
      by (simp add: trim_loop.simps [of c t M lo hi best] Let_def split: sum.splits)
    show ?thesis
    proof (cases "tok \<le> M")
      case le: True
      with run True tok have run': "trim_loop c t M (?mid + 1) hi ?cand = Inr r"
        by (simp add: trim_loop.simps [of c t M lo hi best] Let_def)
      from fit inv True tok le have "I (?mid + 1) hi ?cand" by blast
      from "1.IH"(1) [OF True refl refl tok le run' this fit over] show ?thesis .
    next
      case gt: False
      with run True tok have run': "trim_loop c t M lo (?mid - 1) best = Inr r"
        by (simp add: trim_loop.simps [of c t M lo hi best] Let_def)
      from over inv True tok gt have "I lo (?mid - 1) best" by blast
      from "1.IH"(2) [OF True refl refl tok gt run' this fit over] show ?thesis .
    qed
  qed
qed

lemma trim_loop_prefix:
  assumes "trim_loop c t M lo hi best = Inr r" and "prefix best t"
  shows "prefix r t"
proof -
  have "\<exists>lo' hi' :: int. prefix r t \<and> hi' < lo'"
    by (rule trim_loop_invariant [where I = "\<lambda>lo hi b. prefix b t", OF assms])
      (simp_all add: py_slice_0_prefix)
  then show ?thesis by simp
qed

lemma trim_loop_fits:
  assumes "trim_loop c t M lo hi best = Inr r" and "best \<noteq> [] \<longrightarrow> fits c M best"
  shows "r \<noteq> [] \<longrightarrow> fits c M r"
proof -
  have "\<exists>lo' hi' :: int. (r \<noteq> [] \<longrightarrow> fits c M r) \<and> hi' < lo'"
    by (rule trim_loop_invariant [where I = "\<lambda>lo hi b. b \<noteq> [] \<longrightarrow> fits c M b", OF assms])
      (simp_all add: fits_def)
  then show ?thesis by simp
qed

lemma prefix_monotoneD:
  assumes mono: "prefix_monotone c t" and pq: "prefix p q" "prefix q t"
    and c: "c p = Inr a" "c q = Inr b"
  shows "a \<le> b"
proof -
  from pq have "q \<in> set (prefixes t)" "p \<in> set (prefixes q)" by simp_all
  with mono have "case (c p, c q) of (Inr a, Inr b) \<Rightarrow> a \<le> b | _ \<Rightarrow> True"
    unfolding prefix_monotone_def by blast
  with c show ?thesis by simp
qed

lemma prefix_monotone_length: "prefix_monotone length_estimator s"
  by (auto simp: prefix_monotone_def length_estimator_def prefix_length_le)

lemma trim_loop_longest:
  assumes run: "trim_loop c t M lo hi best = Inr r" and inv: "search_inv c t M lo hi best"
    and mono: "prefix_monotone c t" and p: "prefix p t" "fits c M p"
  shows "length p \<le> length r"
proof -
  have fit: "\<forall>lo hi best tok. search_inv c t M lo hi best \<and> lo \<le> hi
           \<and> c (py_slice t 0 ((lo + hi) div 2)) = Inr tok \<and> tok \<le> M
           \<longrightarrow> search_inv c t M ((lo + hi) div 2 + 1) hi (py_slice t 0 ((lo + hi) div 2))"
    unfolding search_inv_def by (auto simp: py_slice_0_in_range)
  have over: "\<forall>lo hi best tok. search_inv c t M lo hi best \<and> lo \<le> hi
           \<and> c (py_slice t 0 ((lo + hi) div 2)) = Inr tok \<and> \<not> tok \<le> M
           \<longrightarrow> search_inv c t M lo ((lo + hi) div 2 - 1) best"
  proof (intro allI impI, elim conjE)
    fix lo hi :: int and best tok
    assume a: "search_inv c t M lo hi best" "lo \<le> hi"
      "c (py_slice t 0 ((lo + hi) div 2)) = Inr tok" "\<not> tok \<le> M"
    then have "py_slice t 0 ((lo + hi) div 2) = take (nat ((lo + hi) div 2)) t"
      unfolding search_inv_def by (intro py_slice_0_in_range) auto
    with a show "search_inv c t M lo ((lo + hi) div 2 - 1) best"
      unfolding search_inv_def by auto
  qed
  have "\<exists>lo' hi'. search_inv c t M lo' hi' r \<and> hi' < lo'"
    by (rule trim_loop_invariant [where I = "search_inv c t M", OF run inv fit over])
  then obtain lo' hi' where fin: "search_inv c t M lo' hi' r" "hi' < lo'" by blast
  then obtain tok where len: "int (length r) = hi'" and hi': "0 \<le> hi'"
    and tok: "c (take (nat (hi' + 1)) t) = Inr tok" "M < tok"
    unfolding search_inv_def by auto
  from p(2) obtain a where a: "c p = Inr a" "a \<le> M"
    by (auto simp: fits_def split: sum.splits)
  show ?thesis
  proof (rule ccontr)
    assume "\<not> length p \<le> length r"
    with len hi' have "nat (hi' + 1) \<le> length p" by linarith
    moreover from p(1) obtain zs where "t = p @ zs" by (auto simp: prefix_def)
    ultimately have "take (nat (hi' + 1)) t = take (nat (hi' + 1)) p" by simp
    then have "prefix (take (nat (hi' + 1)) t) p" by (simp add: take_is_prefix)
    from prefix_monotoneD [OF mono this p(1) tok(1) a(1)] tok(2) a(2) show False by simp
  qed
qed

text \<open>
  C2, as stated: for every text and every limit \<open>M \<ge> 0\<close>, \<open>_trim_to_token_limit\<close> returns
  the longest prefix whose count is within the limit when the counter is non-decreasing
  in prefix length. A text of two spaces fits the limit 2 under the character counter,
  and the trimmer returns the empty string.
\<close>

theorem trim_blank_not_longest:
  "prefix_monotone length_estimator ''  ''
   \<and> trim_to_token_limit length_estimator ''  '' 2 = Inr []
   \<and> prefix ''  '' ''  '' \<and> fits length_estimator 2 ''  ''
   \<and> length ([] :: string) < length ''  ''"
  by (simp add: prefix_monotone_length trim_to_token_limit_def strip_def is_space_def fits_def
      length_estimator_def)

text \<open>
  C2, amended: whenever \<open>_trim_to_token_limit\<close> returns, the result is a prefix of the
  text; a non-empty result has a count within the limit (the empty string is returned
  without being counted); and for a text with a non-whitespace character and a counter
  that is non-decreasing in prefix length, no prefix of the text whose count is within
  the limit is longer than the result.
\<close>

theorem trimmed_prefix_within_limit:
  assumes "trim_to_token_limit count_tokens T M = Inr r"
  shows "prefix r T \<and> (r \<noteq> [] \<longrightarrow> fits count_tokens M r) \<and>
         (strip T \<noteq> [] \<longrightarrow> prefix_monotone count_tokens T \<longrightarrow>
            (\<forall>p. prefix p T \<and> fits count_tokens M p \<longrightarrow> length p \<le> length r))"
proof (cases "strip T = []")
  case True
  with assms show ?thesis by (simp add: trim_to_token_limit_def)
next
  case False
  with assms obtain tok where tok: "count_tokens T = Inr tok"
    by (simp add: trim_to_token_limit_def split: sum.splits)
  show ?thesis
  proof (cases "tok \<le> M")
    case True
    with assms False tok have "r = T" by (simp add: trim_to_token_limit_def)
    with tok True show ?thesis by (simp add: fits_def prefix_length_le)
  next
    case over: False
    with assms False tok
    have run: "trim_loop count_tokens T M 1 (int (length T)) [] = Inr r"
      by (simp add: trim_to_token_limit_def)
    from tok over have inv: "search_inv count_tokens T M 1 (int (length T)) []"
      by (simp add: search_inv_def)
    have "prefix r T" by (rule trim_loop_prefix [OF run]) simp
    moreover have "r \<noteq> [] \<longrightarrow> fits count_tokens M r" by (rule trim_loop_fits [OF run]) simp
    moreover have "prefix_monotone count_tokens T \<longrightarrow>
        (\<forall>p. prefix p T \<and> fits count_tokens M p \<longrightarrow> length p \<le> length r)"
      using trim_loop_longest [OF run inv] by blast
    ultimately show ?thesis by simp
  qed
qed

theorem trimmed_prefix_within_limit_witness:
  "trim_to_token_limit length_estimator ''abcdefgh'' 5 = Inr ''abcde''
   \<and> prefix ''abcde'' ''abcdefgh'' \<and> ''abcde'' \<noteq> [] \<and> fits length_estimator 5 ''abcde''
   \<and> strip ''abcdefgh'' \<noteq> [] \<and> prefix_monotone length_estimator ''abcdefgh''
   \<and> prefix ''abcd'' ''abcdefgh'' \<and> fits length_estimator 5 ''abcd''
   \<and> length ''abcd'' \<le> length ''abcde''"
proof -
  have run: "trim_to_token_limit length_estimator ''abcdefgh'' 5 = Inr ''abcde''"
    by (simp add: trim_to_token_limit_def strip_def is_space_def length_estimator_def
        trim_loop.simps py_slice_def slice_index_def)
  have "strip ''abcdefgh'' \<noteq> []" by (simp add: strip_def is_space_def)
  moreover have "prefix ''abcd'' ''abcdefgh''" "fits length_estimator 5 ''abcd''"
    by (simp_all add: fits_def length_estimator_def)
  moreover note prefix_monotone_length [of "''abcdefgh''"] run
    trimmed_prefix_within_limit [OF run]
  ultimately show ?thesis by blast
qed

text \<open>
  C6, as stated: for every text whose count is within the limit, whitespace-only texts
  included, \<open>_trim_to_token_limit\<close> returns the text unchanged. A single space is within
  the limit 1 and is trimmed to the empty string.
\<close>

theorem trim_blank_text_changed:
  "fits length_estimator 1 '' '' \<and> trim_to_token_limit length_estimator '' '' 1 \<noteq> Inr '' ''"
  by (simp add: trim_to_token_limit_def strip_def is_space_def fits_def length_estimator_def)

text \<open>
  C6, amended: for every text whose count is within the limit, \<open>_trim_to_token_limit\<close>
  returns the text unchanged if it has a non-whitespace character, and the empty string
  if it is empty or whitespace-only.
\<close>

theorem trim_fast_path:
  "count_tokens T = Inr tok \<Longrightarrow> tok \<le> M \<Longrightarrow>
   trim_to_token_limit count_tokens T M = Inr (if strip T = [] then [] else T)"
  by (simp add: trim_to_token_limit_def)

theorem trim_fast_path_witness:
  "length_estimator ''abc'' = Inr 3 \<and> (3 :: int) \<le> 5
   \<and> trim_to_token_limit length_estimator ''abc'' 5 = Inr ''abc''"
proof -
  have c: "length_estimator ''abc'' = Inr 3" by (simp add: length_estimator_def)
  have "strip ''abc'' \<noteq> []" by (simp add: strip_def is_space_def)
  with trim_fast_path [of length_estimator "''abc''" 3 5] c show ?thesis by simp
qed

section \<open>The sampler\<close>

lemma strip_Nil_iff: "strip s = [] \<longleftrightarrow> (\<forall>c \<in> set s. is_space c)"
proof
  assume "strip s = []"
  then have "\<forall>c \<in> set (dropWhile is_space s). is_space c"
    by (simp add: strip_def dropWhile_eq_Nil_conv)
  then have "dropWhile is_space s = []"
    using hd_dropWhile [of is_space s] by (cases "dropWhile is_space s") auto
  then show "\<forall>c \<in> set s. is_space c" by (simp add: dropWhile_eq_Nil_conv)
next
  assume "\<forall>c \<in> set s. is_space c"
  then have "dropWhile is_space s = []" by (simp only: dropWhile_eq_Nil_conv)
  then show "strip s = []" unfolding strip_def by (simp only: rev.simps dropWhile.simps)
qed

lemma strip_prefix_dropWhile: "prefix (strip s) (dropWhile is_space s)"
  unfolding strip_def
  by (metis suffix_dropWhile suffix_to_prefix rev_rev_ident)

lemma hd_strip:
  assumes ne: "strip s \<noteq> []"
  shows "\<not> is_space (hd (strip s))"
proof -
  obtain zs where z: "dropWhile is_space s = strip s @ zs"
    using strip_prefix_dropWhile [of s] by (auto simp: prefix_def)
  from ne have "strip s @ zs \<noteq> []" by simp
  then have d: "dropWhile is_space s \<noteq> []" unfolding z .
  from ne have "hd (strip s @ zs) = hd (strip s)" by (rule hd_append2)
  then have "hd (dropWhile is_space s) = hd (strip s)" unfolding z .
  with hd_dropWhile [OF d] show ?thesis by simp
qed

lemma strip_take_strip:
  assumes "strip s \<noteq> []" and "0 < k"
  shows "strip (take k (strip s)) \<noteq> []"
proof -
  from assms have "take k (strip s) \<noteq> []" by simp
  moreover from assms have "hd (take k (strip s)) = hd (strip s)" by simp
  ultimately have "hd (strip s) \<in> set (take k (strip s))"
    by (metis hd_in_set)
  with hd_strip [OF assms(1)] show ?thesis by (auto simp: strip_Nil_iff)
qed

text \<open>The begin window of a text with a non-whitespace character has one too.\<close>

lemma begin_window_not_blank:
  assumes "strip T \<noteq> []"
  shows "strip (fst (candidate_windows (strip T))) \<noteq> []"
proof -
  let ?n = "int (length (strip T))"
  let ?k = "min ?n (SEGMENT_MAX_TOKENS * TOKEN_TO_CHAR_RATIO * 2)"
  from assms have "0 < length (strip T)" by simp
  then have k: "0 < ?k" "?k \<le> ?n"
    by (simp_all add: SEGMENT_MAX_TOKENS_def TOKEN_TO_CHAR_RATIO_def)
  then have "py_slice (strip T) 0 ?k = take (nat ?k) (strip T)"
    by (intro py_slice_0_in_range) simp_all
  moreover from k have "0 < nat ?k" by simp
  ultimately show ?thesis
    using strip_take_strip [OF assms, of "nat ?k"]
    by (simp add: candidate_windows_def Let_def)
qed

lemma bind_Inl [simp]: "bind (Inl e) f = Inl e"
  by (simp add: bind_def)

lemma bind_Inr [simp]: "bind (Inr x) f = f x"
  by (simp add: bind_def)

lemma bind_eq_Inr: "bind m f = Inr y \<longleftrightarrow> (\<exists>x. m = Inr x \<and> f x = Inr y)"
  by (cases m) simp_all

lemma sample_pass_Inr:
  "sample_pass c (tb, tm, te) full limit = Inr (segments, total_tok) \<longleftrightarrow>
     (\<exists>b m e.
        trim_to_token_limit c (fst (candidate_windows full)) limit = Inr b \<and>
        trim_to_token_limit c (fst (snd (candidate_windows full))) limit = Inr m \<and>
        trim_to_token_limit c (snd (snd (candidate_windows full))) limit = Inr e \<and>
        segments = [(tb, b), (tm, m), (te, e)] \<and>
        c (combine_segments segments) = Inr total_tok)"
  by (cases "candidate_windows full") (auto simp: sample_pass_def bind_eq_Inr Let_def)

text \<open>
  On a text with a non-whitespace character the source function is the single-correction
  sampler of its description, run on the stripped text.
\<close>

lemma build_representative_sample_passes:
  assumes "strip T \<noteq> []"
  shows "build_representative_sample count_tokens titles T =
           single_correction_sample count_tokens titles (strip T)"
proof -
  obtain tb tm te where titles: "titles = (tb, tm, te)" by (cases titles) auto
  obtain b m e where w: "candidate_windows (strip T) = (b, m, e)"
    by (cases "candidate_windows (strip T)") auto
  then have w':
    "py_slice (strip T) 0
       (min (int (length (strip T))) (SEGMENT_MAX_TOKENS * TOKEN_TO_CHAR_RATIO * 2)) = b"
    "py_slice (strip T)
       (max 0 (int (length (strip T)) div 2 - SEGMENT_MAX_TOKENS * TOKEN_TO_CHAR_RATIO))
       (min (int (length (strip T)))
          (int (length (strip T)) div 2 + SEGMENT_MAX_TOKENS * TOKEN_TO_CHAR_RATIO)) = m"
    "py_slice (strip T)
       (max 0 (int (length (strip T)) - SEGMENT_MAX_TOKENS * TOKEN_TO_CHAR_RATIO * 2))
       (int (length (strip T))) = e"
    by (simp_all add: candidate_windows_def Let_def)
  have pos: "\<And>t :: int. TARGET_TOTAL_SAMPLE_TOKENS < t \<Longrightarrow> max t 1 = t"
    by (simp add: TARGET_TOTAL_SAMPLE_TOKENS_def)
  show ?thesis
    unfolding build_representative_sample_def single_correction_sample_def sample_pass_def
      sample_result_def titles w
    using assms
    by (simp add: Let_def w' pos bind_def split: sum.splits)
qed

lemma build_result_cases:
  assumes "strip T \<noteq> []" and "build_representative_sample c titles T = Inr out"
  obtains (within) segments total_tok where
      "sample_pass c titles (strip T) SEGMENT_MAX_TOKENS = Inr (segments, total_tok)"
      "\<not> total_tok > TARGET_TOTAL_SAMPLE_TOKENS" "out = sample_result segments total_tok"
  | (reduced) segments total_tok segments' total_tok' where
      "sample_pass c titles (strip T) SEGMENT_MAX_TOKENS = Inr (segments, total_tok)"
      "total_tok > TARGET_TOTAL_SAMPLE_TOKENS"
      "sample_pass c titles (strip T)
         (max 2000 ((SEGMENT_MAX_TOKENS * TARGET_TOTAL_SAMPLE_TOKENS) div total_tok))
         = Inr (segments', total_tok')"
      "out = sample_result segments' total_tok'"
proof -
  from assms have "single_correction_sample c titles (strip T) = Inr out"
    by (simp add: build_representative_sample_passes)
  then obtain segments total_tok where
    first: "sample_pass c titles (strip T) SEGMENT_MAX_TOKENS = Inr (segments, total_tok)"
    and rest: "(if total_tok > TARGET_TOTAL_SAMPLE_TOKENS then
         bind (sample_pass c titles (strip T)
                 (max 2000 ((SEGMENT_MAX_TOKENS * TARGET_TOTAL_SAMPLE_TOKENS) div total_tok)))
           (\<lambda>(segments', total_tok'). Inr (sample_result segments' total_tok'))
       else Inr (sample_result segments total_tok)) = Inr out"
    by (auto simp: single_correction_sample_def bind_eq_Inr)
  show thesis
  proof (cases "total_tok > TARGET_TOTAL_SAMPLE_TOKENS")
    case False
    with rest have "out = sample_result segments total_tok" by simp
    with first False show thesis by (rule within)
  next
    case True
    with rest obtain segments' total_tok' where
      "sample_pass c titles (strip T)
         (max 2000 ((SEGMENT_MAX_TOKENS * TARGET_TOTAL_SAMPLE_TOKENS) div total_tok))
         = Inr (segments', total_tok')"
      "out = sample_result segments' total_tok'"
      by (auto simp: bind_eq_Inr)
    with first True show thesis by (rule reduced)
  qed
qed

lemma build_fails_on_begin_window:
  assumes T: "strip T \<noteq> []"
    and fail: "count_tokens (fst (candidate_windows (strip T))) = Inl e"
  shows "build_representative_sample count_tokens titles T = Inl e"
proof -
  obtain tb tm te where titles: "titles = (tb, tm, te)" by (cases titles) auto
  obtain b m en where w: "candidate_windows (strip T) = (b, m, en)"
    by (cases "candidate_windows (strip T)") auto
  from begin_window_not_blank [OF T] fail w
  have "trim_to_token_limit count_tokens b SEGMENT_MAX_TOKENS = Inl e"
    by (simp add: trim_to_token_limit_def)
  then have "sample_pass count_tokens titles (strip T) SEGMENT_MAX_TOKENS = Inl e"
    by (simp add: sample_pass_def titles w)
  then show ?thesis
    by (simp add: build_representative_sample_passes [OF T] single_correction_sample_def)
qed

text \<open>
  C3, as stated: when the token estimator fails, a character-length estimate is
  substituted and chunking and sampling complete; the failure never reaches the caller.
  \<open>_count_tokens\<close> has no handler: with a counter that raises, the trimmer and the
  sampler raise.
\<close>

theorem estimator_failure_propagates:
  "trim_to_token_limit failing_estimator ''a'' 5 = Inl EstimationFailure
   \<and> build_representative_sample failing_estimator (''[B]'', ''[M]'', ''[E]'') ''a''
       = Inl EstimationFailure"
proof -
  have a: "strip ''a'' \<noteq> []" by (simp add: strip_def is_space_def)
  then have "trim_to_token_limit failing_estimator ''a'' 5 = Inl EstimationFailure"
    by (simp add: trim_to_token_limit_def failing_estimator_def)
  moreover have "build_representative_sample failing_estimator (''[B]'', ''[M]'', ''[E]'') ''a''
       = Inl EstimationFailure"
    by (rule build_fails_on_begin_window [OF a]) (simp add: failing_estimator_def)
  ultimately show ?thesis by simp
qed

text \<open>
  C3, amended: when the tokenizer of \<open>estimate_tokens\<close> fails on a text, the estimate
  is \<open>len(text) // 3\<close>, so the splitter, which has no other source of failure, completes.
  The counter of the trimmer and the sampler has no fallback: for a text with a
  non-whitespace character, a failure of the counter on the text is the result of
  \<open>_trim_to_token_limit\<close>, and a failure on the begin window is the result of
  \<open>_build_representative_sample\<close>.
\<close>

theorem estimator_failure_handling:
  "(encode T = Inl e \<longrightarrow> estimate_tokens encode T = int (length T) div 3) \<and>
   (strip T \<noteq> [] \<longrightarrow> count_tokens T = Inl e \<longrightarrow>
      trim_to_token_limit count_tokens T M = Inl e) \<and>
   (strip T \<noteq> [] \<longrightarrow> count_tokens (fst (candidate_windows (strip T))) = Inl e \<longrightarrow>
      build_representative_sample count_tokens titles T = Inl e)"
proof (intro conjI impI)
  assume "encode T = Inl e"
  then show "estimate_tokens encode T = int (length T) div 3"
    by (simp add: estimate_tokens_def)
next
  assume "strip T \<noteq> []" "count_tokens T = Inl e"
  then show "trim_to_token_limit count_tokens T M = Inl e"
    by (simp add: trim_to_token_limit_def)
next
  assume "strip T \<noteq> []" "count_tokens (fst (candidate_windows (strip T))) = Inl e"
  then show "build_representative_sample count_tokens titles T = Inl e"
    by (rule build_fails_on_begin_window)
qed

theorem estimator_failure_handling_witness:
  "failing_encoder ''abcdef'' = Inl EstimationFailure
   \<and> estimate_tokens failing_encoder ''abcdef'' = 2
   \<and> strip ''abcdef'' \<noteq> []
   \<and> failing_estimator ''abcdef'' = Inl EstimationFailure
   \<and> trim_to_token_limit failing_estimator ''abcdef'' 5 = Inl EstimationFailure
   \<and> failing_estimator (fst (candidate_windows (strip ''abcdef''))) = Inl EstimationFailure
   \<and> build_representative_sample failing_estimator (''[B]'', ''[M]'', ''[E]'') ''abcdef''
       = Inl EstimationFailure"
proof -
  have "strip ''abcdef'' \<noteq> []" by (simp add: strip_def is_space_def)
  with estimator_failure_handling
    [of failing_encoder "''abcdef''" EstimationFailure failing_estimator 5
      "(''[B]'', ''[M]'', ''[E]'')"]
  show ?thesis by (simp add: failing_encoder_def failing_estimator_def)
qed

text \<open>
  C7, as stated: for every empty or whitespace-only text the splitter returns an empty
  chunk list. The empty text is within every limit \<open>M \<ge> 0\<close>, so the fast path returns
  the one-element list holding it.
\<close>

theorem split_empty_text_one_chunk:
  "split_text_by_tokens failing_encoder [] 30000 = [[]]
   \<and> split_text_by_tokens failing_encoder [] 30000 \<noteq> []"
  by (simp add: split_text_by_tokens_def estimate_tokens_def failing_encoder_def)

text \<open>
  C7, amended: for every text whose estimate is within the limit, an empty or
  whitespace-only one included, the splitter returns the one-element list holding the
  text; for every empty or whitespace-only text \<open>_build_representative_sample\<close> returns
  the empty string with the metadata \<open>{"segments": [], "total_tokens": 0}\<close>, whatever
  the counter does; neither raises.
\<close>

theorem empty_input_results:
  "(estimate_tokens encode T \<le> M \<longrightarrow> split_text_by_tokens encode T M = [T]) \<and>
   (strip T = [] \<longrightarrow>
      build_representative_sample count_tokens titles T
        = Inr ([], [(''segments'', PyStrList []), (''total_tokens'', PyInt 0)]))"
  by (cases titles) (simp add: split_fast_path build_representative_sample_def)

theorem empty_input_results_witness:
  "estimate_tokens failing_encoder ''   '' \<le> 1
   \<and> split_text_by_tokens failing_encoder ''   '' 1 = [''   '']
   \<and> strip ''   '' = []
   \<and> build_representative_sample failing_estimator (''[B]'', ''[M]'', ''[E]'') ''   ''
       = Inr ([], [(''segments'', PyStrList []), (''total_tokens'', PyInt 0)])"
proof -
  have "estimate_tokens failing_encoder ''   '' \<le> 1"
    by (simp add: estimate_tokens_def failing_encoder_def)
  moreover have "strip ''   '' = []" by (simp add: strip_def is_space_def)
  moreover note empty_input_results
    [of failing_encoder "''   ''" 1 failing_estimator "(''[B]'', ''[M]'', ''[E]'')"]
  ultimately show ?thesis by simp
qed

lemma build_blank:
  "strip T = [] \<Longrightarrow>
   build_representative_sample count_tokens titles T
     = Inr ([], [(''segments'', PyStrList []), (''total_tokens'', PyInt 0)])"
  by (cases titles) (simp add: build_representative_sample_def)

text \<open>
  C4, as stated: for every non-empty text \<open>_build_representative_sample\<close> measures the
  combined sample and corrects it once if it is over the budget. A text of one space is
  not empty, and the sampler returns the empty sample with zero-valued metadata without
  measuring anything: it returns even though every call of the counter would raise.
\<close>

theorem sampler_blank_text_not_measured:
  "'' '' \<noteq> []
   \<and> build_representative_sample failing_estimator (''[B]'', ''[M]'', ''[E]'') '' ''
       = Inr ([], [(''segments'', PyStrList []), (''total_tokens'', PyInt 0)])"
proof -
  have "strip '' '' = []" by (simp add: strip_def is_space_def)
  then show ?thesis by (simp add: build_blank)
qed

text \<open>
  C4, amended: for every text with a non-whitespace character, a run of
  \<open>_build_representative_sample\<close> that returns has measured the combined sample of the
  three windows trimmed to \<open>SEGMENT_MAX_TOKENS\<close>; if that total is within the budget the
  result is this sample; otherwise the result is the sample of exactly one more pass, in
  which the three raw windows are trimmed to the single limit
  \<open>max(2000, SEGMENT_MAX_TOKENS * TARGET_TOTAL_SAMPLE_TOKENS div total)\<close>, combined and
  measured once, and it is returned whatever its total is.
\<close>

theorem sampler_single_correction_pass:
  assumes "strip T \<noteq> []" and "build_representative_sample count_tokens titles T = Inr out"
  shows "\<exists>segments total_tok.
           sample_pass count_tokens titles (strip T) SEGMENT_MAX_TOKENS = Inr (segments, total_tok) \<and>
           (if total_tok > TARGET_TOTAL_SAMPLE_TOKENS then
              (\<exists>segments' total_tok'.
                 sample_pass count_tokens titles (strip T)
                   (max 2000 ((SEGMENT_MAX_TOKENS * TARGET_TOTAL_SAMPLE_TOKENS) div total_tok))
                   = Inr (segments', total_tok') \<and>
                 out = sample_result segments' total_tok')
            else out = sample_result segments total_tok)"
  using assms by (cases rule: build_result_cases) auto

lemma py_slice_whole: "py_slice s 0 (int (length s)) = s"
  by (simp add: py_slice_def slice_index_def)

text \<open>A text no longer than one segment window is its own begin, middle and end window.\<close>

lemma candidate_windows_short:
  assumes "int (length full) \<le> SEGMENT_MAX_TOKENS * TOKEN_TO_CHAR_RATIO"
  shows "candidate_windows full = (full, full, full)"
proof -
  let ?n = "int (length full)"
  let ?c = "SEGMENT_MAX_TOKENS * TOKEN_TO_CHAR_RATIO"
  from assms have "0 \<le> ?c" by linarith
  with assms have "min ?n (?c * 2) = ?n" "max 0 (?n div 2 - ?c) = 0"
    "min ?n (?n div 2 + ?c) = ?n" "max 0 (?n - ?c * 2) = 0"
    by linarith+
  then show ?thesis by (simp add: candidate_windows_def Let_def py_slice_whole)
qed

lemma windows_example:
  "strip '' abcdefghijkl '' = ''abcdefghijkl''"
  "candidate_windows ''abcdefghijkl'' = (''abcdefghijkl'', ''abcdefghijkl'', ''abcdefghijkl'')"
  by (simp add: strip_def is_space_def)
    (rule candidate_windows_short, simp add: SEGMENT_MAX_TOKENS_def TOKEN_TO_CHAR_RATIO_def)

lemma trim_example_thousand:
  "trim_to_token_limit thousand_per_char ''abcdefghijkl'' 8000 = Inr ''abcdefgh''"
  "trim_to_token_limit thousand_per_char ''abcdefghijkl'' 4400 = Inr ''abcd''"
  by (simp_all add: trim_to_token_limit_def strip_def is_space_def thousand_per_char_def
      trim_loop.simps py_slice_def slice_index_def)

lemma pass_example_first:
  "sample_pass thousand_per_char (''[B]'', ''[M]'', ''[E]'') ''abcdefghijkl'' 8000
     = Inr ([(''[B]'', ''abcdefgh''), (''[M]'', ''abcdefgh''), (''[E]'', ''abcdefgh'')], 40000)"
  by (simp add: sample_pass_def windows_example trim_example_thousand
      combine_segments_def strip_def is_space_def thousand_per_char_def)

lemma pass_example_second:
  "sample_pass thousand_per_char (''[B]'', ''[M]'', ''[E]'') ''abcdefghijkl'' 4400
     = Inr ([(''[B]'', ''abcd''), (''[M]'', ''abcd''), (''[E]'', ''abcd'')], 28000)"
  by (simp add: sample_pass_def windows_example trim_example_thousand
      combine_segments_def strip_def is_space_def thousand_per_char_def)

lemma build_example_over_budget:
  "build_representative_sample thousand_per_char (''[B]'', ''[M]'', ''[E]'') '' abcdefghijkl ''
     = Inr (sample_result [(''[B]'', ''abcd''), (''[M]'', ''abcd''), (''[E]'', ''abcd'')] 28000)"
proof -
  have "strip '' abcdefghijkl '' \<noteq> []" by (simp add: windows_example)
  then show ?thesis
    by (simp add: build_representative_sample_passes single_correction_sample_def
        windows_example pass_example_first pass_example_second
        SEGMENT_MAX_TOKENS_def TARGET_TOTAL_SAMPLE_TOKENS_def)
qed

theorem sampler_single_correction_pass_witness:
  "strip '' abcdefghijkl '' \<noteq> []
   \<and> build_representative_sample thousand_per_char (''[B]'', ''[M]'', ''[E]'') '' abcdefghijkl ''
       = Inr (sample_result [(''[B]'', ''abcd''), (''[M]'', ''abcd''), (''[E]'', ''abcd'')] 28000)
   \<and> sample_pass thousand_per_char (''[B]'', ''[M]'', ''[E]'') (strip '' abcdefghijkl '')
         SEGMENT_MAX_TOKENS
       = Inr ([(''[B]'', ''abcdefgh''), (''[M]'', ''abcdefgh''), (''[E]'', ''abcdefgh'')], 40000)
   \<and> 40000 > TARGET_TOTAL_SAMPLE_TOKENS
   \<and> max 2000 ((SEGMENT_MAX_TOKENS * TARGET_TOTAL_SAMPLE_TOKENS) div 40000) = 4400
   \<and> sample_pass thousand_per_char (''[B]'', ''[M]'', ''[E]'') (strip '' abcdefghijkl '') 4400
       = Inr ([(''[B]'', ''abcd''), (''[M]'', ''abcd''), (''[E]'', ''abcd'')], 28000)
   \<and> 28000 > TARGET_TOTAL_SAMPLE_TOKENS"
proof -
  have ne: "strip '' abcdefghijkl '' \<noteq> []" by (simp add: windows_example)
  from sampler_single_correction_pass [OF ne build_example_over_budget] ne
  show ?thesis
    by (simp add: build_example_over_budget windows_example pass_example_first
        pass_example_second SEGMENT_MAX_TOKENS_def TARGET_TOTAL_SAMPLE_TOKENS_def)
qed

text \<open>
  C10. For every text with a non-whitespace character, the metadata returned by
  \<open>_build_representative_sample\<close> agrees with the sample returned with it: the sample is
  the combination of the three windows trimmed to one limit, its
  \<open>actual_total_sample_tokens\<close> is the counter's count of that very string, and
  \<open>segments_included\<close> lists the titles of the segments whose trimmed text is not
  whitespace-only, in the order begin, middle, end.
\<close>

theorem sample_meta_consistent:
  assumes "strip T \<noteq> []"
    and "build_representative_sample count_tokens (tb, tm, te) T = Inr (combined, meta)"
  shows "\<exists>limit b m e total_tok.
           trim_to_token_limit count_tokens (fst (candidate_windows (strip T))) limit = Inr b \<and>
           trim_to_token_limit count_tokens (fst (snd (candidate_windows (strip T)))) limit = Inr m \<and>
           trim_to_token_limit count_tokens (snd (snd (candidate_windows (strip T)))) limit = Inr e \<and>
           combined = combine_segments [(tb, b), (tm, m), (te, e)] \<and>
           count_tokens combined = Inr total_tok \<and>
           map_of meta ''actual_total_sample_tokens'' = Some (PyInt total_tok) \<and>
           map_of meta ''segments_included'' =
             Some (PyStrList ((if strip b = [] then [] else [tb]) @
                              (if strip m = [] then [] else [tm]) @
                              (if strip e = [] then [] else [te])))"
proof -
  have meta: "\<exists>b m e.
      trim_to_token_limit count_tokens (fst (candidate_windows (strip T))) limit = Inr b \<and>
      trim_to_token_limit count_tokens (fst (snd (candidate_windows (strip T)))) limit = Inr m \<and>
      trim_to_token_limit count_tokens (snd (snd (candidate_windows (strip T)))) limit = Inr e \<and>
      combined = combine_segments [(tb, b), (tm, m), (te, e)] \<and>
      count_tokens combined = Inr total_tok \<and>
      map_of meta ''actual_total_sample_tokens'' = Some (PyInt total_tok) \<and>
      map_of meta ''segments_included'' =
        Some (PyStrList ((if strip b = [] then [] else [tb]) @
                         (if strip m = [] then [] else [tm]) @
                         (if strip e = [] then [] else [te])))"
    if pass: "sample_pass count_tokens (tb, tm, te) (strip T) limit = Inr (segments, total_tok)"
      and out: "(combined, meta) = sample_result segments total_tok"
    for limit segments total_tok
  proof -
    from pass obtain b m e where
      "trim_to_token_limit count_tokens (fst (candidate_windows (strip T))) limit = Inr b"
      "trim_to_token_limit count_tokens (fst (snd (candidate_windows (strip T)))) limit = Inr m"
      "trim_to_token_limit count_tokens (snd (snd (candidate_windows (strip T)))) limit = Inr e"
      and segs: "segments = [(tb, b), (tm, m), (te, e)]"
      and cnt: "count_tokens (combine_segments segments) = Inr total_tok"
      unfolding sample_pass_Inr by blast
    moreover from out segs have "combined = combine_segments [(tb, b), (tm, m), (te, e)]"
      by (simp add: sample_result_def)
    moreover from out segs
    have "map_of meta ''actual_total_sample_tokens'' = Some (PyInt total_tok)"
      "map_of meta ''segments_included'' =
        Some (PyStrList ((if strip b = [] then [] else [tb]) @
                         (if strip m = [] then [] else [tm]) @
                         (if strip e = [] then [] else [te])))"
      by (simp_all add: sample_result_def included_titles_def)
    ultimately show ?thesis using cnt segs by blast
  qed
  from assms show ?thesis
  proof (cases rule: build_result_cases)
    case (within segments total_tok)
    from meta [OF within(1,3)] show ?thesis by blast
  next
    case (reduced segments total_tok segments' total_tok')
    from meta [OF reduced(3,4)] show ?thesis by blast
  qed
qed

lemma trim_example_length:
  "trim_to_token_limit length_estimator ''abcdefghijkl'' 8000 = Inr ''abcdefghijkl''"
  by (simp add: trim_to_token_limit_def strip_def is_space_def length_estimator_def)

lemma build_example_within_budget:
  "build_representative_sample length_estimator (''[B]'', ''[M]'', ''[E]'') '' abcdefghijkl ''
     = Inr (sample_result
         [(''[B]'', ''abcdefghijkl''), (''[M]'', ''abcdefghijkl''), (''[E]'', ''abcdefghijkl'')] 52)"
proof -
  have "strip '' abcdefghijkl '' \<noteq> []" by (simp add: windows_example)
  moreover have "sample_pass length_estimator (''[B]'', ''[M]'', ''[E]'') ''abcdefghijkl'' 8000
     = Inr ([(''[B]'', ''abcdefghijkl''), (''[M]'', ''abcdefghijkl''),
             (''[E]'', ''abcdefghijkl'')], 52)"
    by (simp add: sample_pass_def windows_example trim_example_length combine_segments_def
        strip_def is_space_def length_estimator_def)
  ultimately show ?thesis
    by (simp add: build_representative_sample_passes single_correction_sample_def
        windows_example SEGMENT_MAX_TOKENS_def TARGET_TOTAL_SAMPLE_TOKENS_def)
qed

theorem sample_meta_consistent_witness:
  "strip '' abcdefghijkl '' \<noteq> []
   \<and> build_representative_sample length_estimator (''[B]'', ''[M]'', ''[E]'') '' abcdefghijkl ''
       = Inr (sample_result
           [(''[B]'', ''abcdefghijkl''), (''[M]'', ''abcdefghijkl''), (''[E]'', ''abcdefghijkl'')] 52)
   \<and> (\<exists>limit b m e total_tok.
         trim_to_token_limit length_estimator
           (fst (candidate_windows (strip '' abcdefghijkl ''))) limit = Inr b \<and>
         trim_to_token_limit length_estimator
           (fst (snd (candidate_windows (strip '' abcdefghijkl '')))) limit = Inr m \<and>
         trim_to_token_limit length_estimator
           (snd (snd (candidate_windows (strip '' abcdefghijkl '')))) limit = Inr e \<and>
         fst (sample_result
           [(''[B]'', ''abcdefghijkl''), (''[M]'', ''abcdefghijkl''), (''[E]'', ''abcdefghijkl'')] 52)
           = combine_segments [(''[B]'', b), (''[M]'', m), (''[E]'', e)] \<and>
         length_estimator (fst (sample_result
           [(''[B]'', ''abcdefghijkl''), (''[M]'', ''abcdefghijkl''), (''[E]'', ''abcdefghijkl'')] 52))
           = Inr total_tok \<and>
         map_of (snd (sample_result
           [(''[B]'', ''abcdefghijkl''), (''[M]'', ''abcdefghijkl''), (''[E]'', ''abcdefghijkl'')] 52))
           ''actual_total_sample_tokens'' = Some (PyInt total_tok) \<and>
         map_of (snd (sample_result
           [(''[B]'', ''abcdefghijkl''), (''[M]'', ''abcdefghijkl''), (''[E]'', ''abcdefghijkl'')] 52))
           ''segments_included'' =
           Some (PyStrList ((if strip b = [] then [] else [''[B]'']) @
                            (if strip m = [] then [] else [''[M]'']) @
                            (if strip e = [] then [] else [''[E]'']))))"
proof -
  let ?out = "sample_result
    [(''[B]'', ''abcdefghijkl''), (''[M]'', ''abcdefghijkl''), (''[E]'', ''abcdefghijkl'')] 52"
  have ne: "strip '' abcdefghijkl '' \<noteq> []" by (simp add: windows_example)
  have run: "build_representative_sample length_estimator (''[B]'', ''[M]'', ''[E]'')
      '' abcdefghijkl '' = Inr (fst ?out, snd ?out)"
    by (simp add: build_example_within_budget)
  from sample_meta_consistent [OF ne run] ne build_example_within_budget
  show ?thesis by blast
qed

section \<open>Termination\<close>

lemma chunk_text_loop_progress:
  assumes "overlap < chunk_size"
  shows "\<exists>result. chunk_text_loop T chunk_size overlap start chunks = Some result"
proof (induction "nat (int (length T) - start)" arbitrary: start chunks rule: less_induct)
  case less
  show ?case
  proof (cases "start < int (length T)")
    case False
    then show ?thesis by (simp add: chunk_text_loop.simps [of T chunk_size overlap start chunks])
  next
    case True
    show ?thesis
    proof (cases "min (start + chunk_size) (int (length T)) = int (length T)")
      case True
      with \<open>start < int (length T)\<close> show ?thesis
        by (simp add: chunk_text_loop.simps [of T chunk_size overlap start chunks] Let_def)
    next
      case False
      from assms True
      have "nat (int (length T) - (start + (chunk_size - overlap))) < nat (int (length T) - start)"
        by linarith
      from less [OF this] obtain result where
        "chunk_text_loop T chunk_size overlap (start + (chunk_size - overlap))
           (chunks @ [py_slice T start (min (start + chunk_size) (int (length T)))]) = Some result"
        by blast
      with True False show ?thesis
        by (simp add: chunk_text_loop.simps [of T chunk_size overlap start chunks] Let_def)
    qed
  qed
qed

text \<open>
  A run that returns never passes through a state in which the step is not positive,
  the chunk is shorter than the text and \<open>start\<close> is not positive: from such a state the
  loop reaches another one.
\<close>

lemma chunk_text_loop_stuck:
  assumes "chunk_text_loop T chunk_size overlap start chunks = Some result"
  shows "\<not> (chunk_size \<le> overlap \<and> chunk_size < int (length T) \<and> start \<le> 0 \<and> T \<noteq> [])"
proof -
  let ?stuck = "\<lambda>T cs ov (start :: int). cs \<le> ov \<and> cs < int (length T) \<and> start \<le> 0 \<and> T \<noteq> []"
  have "\<not> ?stuck T chunk_size overlap start"
  proof (rule chunk_text_loop.raw_induct
      [where P = "\<lambda>T cs ov start chunks result. \<not> ?stuck T cs ov start", OF _ assms])
    fix loop T cs ov start chunks result
    assume IH: "\<And>T' cs' ov' start' chunks' y.
        loop T' cs' ov' start' chunks' = Some y \<Longrightarrow> \<not> ?stuck T' cs' ov' start'"
      and body: "(if start < int (length T) then
          (let end' = min (start + cs) (int (length T));
               chunks' = chunks @ [py_slice T start end']
           in if end' = int (length T) then Some chunks'
              else loop T cs ov (start + (cs - ov)) chunks')
        else Some chunks) = Some result"
    show "\<not> ?stuck T cs ov start"
    proof
      assume stuck: "?stuck T cs ov start"
      then have "0 < length T" by simp
      with stuck have "start < int (length T)" and "start + cs < int (length T)" by linarith+
      with body have "loop T cs ov (start + (cs - ov))
          (chunks @ [py_slice T start (min (start + cs) (int (length T)))]) = Some result"
        by (simp add: Let_def)
      from IH [OF this] stuck show False by simp
    qed
  qed
  then show ?thesis .
qed

lemma chunk_text_returns_iff:
  "(\<exists>result. chunk_text T chunk_size overlap = Some result) \<longleftrightarrow>
     overlap < chunk_size \<or> int (length T) \<le> chunk_size \<or> T = []"
proof
  assume "\<exists>result. chunk_text T chunk_size overlap = Some result"
  then obtain result where "chunk_text_loop T chunk_size overlap 0 [] = Some result"
    by (auto simp: chunk_text_def)
  from chunk_text_loop_stuck [OF this]
  show "overlap < chunk_size \<or> int (length T) \<le> chunk_size \<or> T = []"
    by auto
next
  assume "overlap < chunk_size \<or> int (length T) \<le> chunk_size \<or> T = []"
  then consider "overlap < chunk_size" | "T = []" | "T \<noteq> []" "int (length T) \<le> chunk_size"
    by blast
  then show "\<exists>result. chunk_text T chunk_size overlap = Some result"
  proof cases
    case 1
    then show ?thesis unfolding chunk_text_def by (rule chunk_text_loop_progress)
  next
    case 2
    then show ?thesis
      by (simp add: chunk_text_def chunk_text_loop.simps [of "[]" chunk_size overlap 0 "[]"])
  next
    case 3
    then show ?thesis
      by (simp add: chunk_text_def chunk_text_loop.simps [of T chunk_size overlap 0 "[]"] Let_def)
  qed
qed

lemma trim_loop_total: "trim_loop_dom (count_tokens, T, max_tokens, lo, hi, best)"
proof -
  have "All trim_loop_dom"
    by (rule "trim_loop.termination"
        [where R = "measure (\<lambda>(count_tokens, T, max_tokens, lo, hi, best). nat (hi + 1 - lo))"])
      auto
  then show ?thesis by simp
qed

text \<open>
  C9, as stated: \<open>chunk_text\<close> terminates for every text and every pair of
  \<open>chunk_size\<close> and \<open>overlap\<close>. With \<open>chunk_size = 1\<close> and \<open>overlap = 1\<close> on a text of
  two characters \<open>start\<close> stays 0 and the loop never returns.
\<close>

theorem chunk_text_never_returns:
  "chunk_text ''ab'' 1 1 = None"
  using chunk_text_returns_iff [of "''ab''" 1 1] by (cases "chunk_text ''ab'' 1 1") simp_all

text \<open>
  C9, amended: \<open>chunk_text\<close> returns exactly when \<open>overlap < chunk_size\<close>, or the text
  is no longer than \<open>chunk_size\<close>, or the text is empty (so for every text under the
  defaults 15000 and 500), and runs forever otherwise; the binary search of
  \<open>_trim_to_token_limit\<close> terminates from every state, for every text, limit and
  counter. The loops of \<open>split_text_by_tokens\<close> run over the finite lists of lines and
  words and are total by their definition.
\<close>

theorem chunking_terminates:
  "((\<exists>result. chunk_text T chunk_size overlap = Some result) \<longleftrightarrow>
      overlap < chunk_size \<or> int (length T) \<le> chunk_size \<or> T = []) \<and>
   trim_loop_dom (count_tokens, T, max_tokens, lo, hi, best)"
  by (simp add: chunk_text_returns_iff trim_loop_total)

theorem chunking_terminates_witness:
  "(1 :: int) < 4 \<and> (\<exists>result. chunk_text ''abcdefghij'' 4 1 = Some result)"
  using chunking_terminates [of "''abcdefghij''" 4 1] by simp

end
